theory Spec2Isabelle
  imports Main "HOL-Library.Word"
begin

section \<open>Data model of package numprint\<close>

text \<open>
  Go's \<^verbatim>\<open>int\<close> is a 64-bit two's complement integer: it is a 64-bit word whose
  \<open>+\<close> wraps and whose value is read with \<open>sint\<close>. A \<^verbatim>\<open>rune\<close> is a 32-bit code
  point. Bytes handed to an \<^verbatim>\<open>io.Writer\<close> are characters of a \<open>string\<close>.
\<close>

type_synonym goInt = "64 word"
type_synonym rune = "32 word"

text \<open>
  \<^verbatim>\<open>iter.Seq2[int, int]\<close> is a sequence produced on demand: it either has ended or
  yields one pair and continues. It may be unbounded, so it is a codatatype; the loops
  of the package take it apart one element at a time, and an element that is never
  taken apart is never requested from the source.
\<close>

codatatype 'a iterSeq = Stop | Yield 'a "'a iterSeq"

primrec fromList :: "'a list \<Rightarrow> 'a iterSeq" where
  "fromList [] = Stop"
| "fromList (x # xs) = Yield x (fromList xs)"

primcorec forever :: "'a \<Rightarrow> 'a iterSeq" where
  "forever x = Yield x (forever x)"

text \<open>The two interfaces a digit source can implement (print.go, lines 20-39).\<close>

record Printable =
  AllInRange :: "goInt \<Rightarrow> goInt \<Rightarrow> (goInt \<times> goInt) iterSeq"

record Writable =
  All_seq :: "(goInt \<times> goInt) iterSeq"
  Backward :: "(goInt \<times> goInt) iterSeq"

text \<open>
  The settings record. Its declaration is not in print.go; its fields and their types
  are those the option constructors and the two composite literals of \<^verbatim>\<open>Fprint\<close> and
  \<^verbatim>\<open>Fwrite\<close> assign.
\<close>

record printerSettings =
  digitsPerRow :: goInt
  digitsPerColumn :: goInt
  showCount :: bool
  missingDigit :: rune
  trailingLineFeed :: bool
  leadingDecimal :: bool
  bufferSize :: goInt

text \<open>
  An \<^verbatim>\<open>Option\<close> is an interface with the single unexported method \<^verbatim>\<open>mutate\<close>, and
  \<^verbatim>\<open>optionFunc\<close> is its only implementation; the package builds option values with the
  seven constructors below and in no other way (print.go, lines 48-94). Each
  constructor carries the argument its closure captured, and \<open>mutate\<close> runs the closure.
\<close>

datatype Option =
    DigitsPerRow goInt
  | DigitsPerColumn goInt
  | ShowCount bool
  | MissingDigit rune
  | TrailingLF bool
  | LeadingDecimal bool
  | bufferSizeOption goInt

fun mutate :: "Option \<Rightarrow> printerSettings \<Rightarrow> printerSettings" where
  "mutate (DigitsPerRow count) p = p\<lparr>digitsPerRow := count\<rparr>"
| "mutate (DigitsPerColumn count) p = p\<lparr>digitsPerColumn := count\<rparr>"
| "mutate (ShowCount on) p = p\<lparr>showCount := on\<rparr>"
| "mutate (MissingDigit m) p = p\<lparr>missingDigit := m\<rparr>"
| "mutate (TrailingLF on) p = p\<lparr>trailingLineFeed := on\<rparr>"
| "mutate (LeadingDecimal on) p = p\<lparr>leadingDecimal := on\<rparr>"
| "mutate (bufferSizeOption sz) p = p\<lparr>bufferSize := sz\<rparr>"

text \<open>\<^verbatim>\<open>mutateSettings\<close> (lines 195-201): the options mutate the record in call order.\<close>

fun mutateSettings :: "Option list \<Rightarrow> printerSettings \<Rightarrow> printerSettings" where
  "mutateSettings [] settings = settings"
| "mutateSettings (option # options) settings = mutateSettings options (mutate option settings)"

text \<open>
  The composite literals of \<^verbatim>\<open>Fprint\<close> (lines 105-111) and \<^verbatim>\<open>Fwrite\<close> (lines 125-131).
  A field the literal leaves out has Go's zero value: \<open>False\<close> or \<open>0\<close>.
\<close>

definition Fprint_settings :: printerSettings where
  "Fprint_settings =
     \<lparr>digitsPerRow = 50, digitsPerColumn = 5, showCount = True, missingDigit = 46,
      trailingLineFeed = False, leadingDecimal = True, bufferSize = 0\<rparr>"

definition Fwrite_settings :: printerSettings where
  "Fwrite_settings =
     \<lparr>digitsPerRow = 50, digitsPerColumn = 5, showCount = True, missingDigit = 46,
      trailingLineFeed = True, leadingDecimal = False, bufferSize = 0\<rparr>"

text \<open>
  \<^verbatim>\<open>endOf\<close> (lines 164-169). The loop body returns in its first iteration, so the loop
  takes the backward traversal apart at most once. \<open>endOf_run\<close> also counts the pairs
  the loop received.
\<close>

definition endOf_run :: "Writable \<Rightarrow> goInt \<times> nat" where
  "endOf_run s =
     (case Backward s of
        Stop \<Rightarrow> (0, 0)
      | Yield pr rest \<Rightarrow> (fst pr + 1, 1))"

definition endOf :: "Writable \<Rightarrow> goInt" where
  "endOf s = fst (endOf_run s)"

section \<open>The destination sink\<close>

text \<open>
  An \<^verbatim>\<open>io.Writer\<close> accepts the bytes of each write or reports a failure together with
  the number of bytes it took. The writer below keeps the bytes it accepted. With
  \<open>room = None\<close> it never fails (a \<^verbatim>\<open>strings.Builder\<close>); with \<open>room = Some k\<close> it
  accepts \<open>k\<close> more bytes and fails the write that exceeds them (the section 8 test
  sink that fails after N bytes). \<open>reserved\<close> is the capacity that was requested ahead
  of writing (\<^verbatim>\<open>Grow\<close>); writing does not change it.
\<close>

record writer =
  accepted :: string
  room :: "nat option"
  reserved :: nat

definition Write_to :: "string \<Rightarrow> writer \<Rightarrow> writer \<times> nat \<times> bool" where
  "Write_to bs w =
     (case room w of
        None \<Rightarrow> (w\<lparr>accepted := accepted w @ bs\<rparr>, length bs, False)
      | Some k \<Rightarrow>
          if length bs \<le> k
          then (w\<lparr>accepted := accepted w @ bs, room := Some (k - length bs)\<rparr>, length bs, False)
          else (w\<lparr>accepted := accepted w @ take k bs, room := Some 0\<rparr>, k, True))"

text \<open>The zero value of \<^verbatim>\<open>strings.Builder\<close> that \<^verbatim>\<open>Sprint\<close> and \<^verbatim>\<open>Swrite\<close> declare.\<close>

definition zeroBuilder :: writer where
  "zeroBuilder = \<lparr>accepted = [], room = None, reserved = 0\<rparr>"

definition builder_String :: "writer \<Rightarrow> string" where
  "builder_String w = accepted w"

section \<open>The position range set\<close>

text \<open>
  Modelled from the spec: the type \<^verbatim>\<open>Positions\<close>, its element type and its methods
  \<^verbatim>\<open>All\<close> and \<^verbatim>\<open>End\<close> are used by print.go and declared elsewhere. Section 4.1: an
  ordered, finite collection of ranges \<open>[Start, End)\<close>; the extent is the maximum end
  across all ranges, or 0 if the set is empty.
\<close>

record PositionRange =
  Start :: goInt
  End :: goInt

type_synonym Positions = "PositionRange list"

definition Positions_All :: "Positions \<Rightarrow> PositionRange list" where
  "Positions_All p = p"

fun maxEnd :: "PositionRange list \<Rightarrow> goInt \<Rightarrow> goInt" where
  "maxEnd [] m = m"
| "maxEnd (pr # prs) m = maxEnd prs (if sint m < sint (End pr) then End pr else m)"

definition Positions_End :: "Positions \<Rightarrow> goInt" where
  "Positions_End p = (case p of [] \<Rightarrow> 0 | pr # prs \<Rightarrow> maxEnd prs (End pr))"

section \<open>The layout engine\<close>

text \<open>
  Modelled from the spec: the type \<^verbatim>\<open>printer\<close> with \<^verbatim>\<open>newPrinter\<close>, \<^verbatim>\<open>CanConsume\<close>,
  \<^verbatim>\<open>Consume\<close>, \<^verbatim>\<open>Finish\<close>, \<^verbatim>\<open>BytesWritten\<close> and \<^verbatim>\<open>Err\<close> is used by print.go and
  declared elsewhere. The definitions follow section 4.4. What that section leaves
  open is fixed as follows: the margin is the position in decimal, right-justified to
  the width of the extent in decimal and followed by one space; the very final row is
  the one that ends at the extent; the glyph of a rune is its UTF-8 encoding; and
  \<^verbatim>\<open>Consume\<close> below the cursor, which its precondition excludes, fills no gap and
  renders the digit at the cursor.
\<close>

datatype writeError = WriteFailed

record printer =
  sink :: writer
  config :: printerSettings
  extent :: int
  cursor :: int
  bytesWritten :: int
  err :: "writeError option"

definition newPrinter :: "writer \<Rightarrow> goInt \<Rightarrow> printerSettings \<Rightarrow> printer" where
  "newPrinter w maxDigits st =
     \<lparr>sink = w, config = st, extent = sint maxDigits, cursor = 0, bytesWritten = 0,
      err = None\<rparr>"

definition CanConsume :: "printer \<Rightarrow> bool" where
  "CanConsume p = (err p = None \<and> cursor p < extent p)"

definition BytesWritten :: "printer \<Rightarrow> int" where
  "BytesWritten p = bytesWritten p"

definition Err :: "printer \<Rightarrow> writeError option" where
  "Err p = err p"

text \<open>
  One emission step: a write to the sink. Its byte count is added, a failure is
  recorded, and once an error is recorded nothing is written any more.
\<close>

definition emit :: "string \<Rightarrow> printer \<Rightarrow> printer" where
  "emit bs p =
     (if err p \<noteq> None then p
      else case Write_to bs (sink p) of
        (w, n, failed) \<Rightarrow>
          p\<lparr>sink := w, bytesWritten := bytesWritten p + int n,
            err := (if failed then Some WriteFailed else None)\<rparr>)"

fun decimal :: "nat \<Rightarrow> string" where
  "decimal n =
     (if n < 10 then [char_of (48 + n)] else decimal (n div 10) @ [char_of (48 + n mod 10)])"

definition digitChar :: "int \<Rightarrow> string" where
  "digitChar d = [char_of (48 + d)]"

definition utf8 :: "rune \<Rightarrow> string" where
  "utf8 r =
     (let n = unat r in
      if n < 128 then [char_of n]
      else if n < 2048 then [char_of (192 + n div 64), char_of (128 + n mod 64)]
      else if (55296 \<le> n \<and> n \<le> 57343) \<or> 1114111 < n
      then [char_of (239::nat), char_of (191::nat), char_of (189::nat)]
      else if n < 65536
      then [char_of (224 + n div 4096), char_of (128 + n div 64 mod 64), char_of (128 + n mod 64)]
      else [char_of (240 + n div 262144), char_of (128 + n div 4096 mod 64),
            char_of (128 + n div 64 mod 64), char_of (128 + n mod 64)])"

definition marginText :: "int \<Rightarrow> int \<Rightarrow> string" where
  "marginText e i =
     (let d = decimal (nat i); width = length (decimal (nat e))
      in replicate (width - length d) (CHR '' '') @ d @ '' '')"

definition startsRow :: "printerSettings \<Rightarrow> int \<Rightarrow> bool" where
  "startsRow st i =
     (if 0 < sint (digitsPerRow st) then i mod sint (digitsPerRow st) = 0 else i = 0)"

definition completesRow :: "printerSettings \<Rightarrow> int \<Rightarrow> bool" where
  "completesRow st i =
     (0 < sint (digitsPerRow st) \<and> (i + 1) mod sint (digitsPerRow st) = 0)"

definition completesColumn :: "printerSettings \<Rightarrow> int \<Rightarrow> bool" where
  "completesColumn st i =
     (let inRow = (if 0 < sint (digitsPerRow st) then i mod sint (digitsPerRow st) else i)
      in 0 < sint (digitsPerColumn st) \<and> (inRow + 1) mod sint (digitsPerColumn st) = 0)"

text \<open>
  The per-digit rendering algorithm, steps 1 to 5: the pieces emitted for position \<open>i\<close>
  of an output of extent \<open>e\<close>, in order, with \<open>glyph\<close> the digit character or the
  missing-digit glyph.
\<close>

definition slotPieces :: "printerSettings \<Rightarrow> int \<Rightarrow> int \<Rightarrow> string \<Rightarrow> string list" where
  "slotPieces st e i glyph =
     (if leadingDecimal st \<and> i = 0 then [''0.''] else []) @
     (if showCount st \<and> startsRow st i then [marginText e i] else []) @
     [glyph] @
     (if completesColumn st i \<and> \<not> completesRow st i then ['' ''] else []) @
     (if completesRow st i \<and> i + 1 \<noteq> e then [[CHR 0x0A]] else [])"

definition slotText :: "printerSettings \<Rightarrow> int \<Rightarrow> int \<Rightarrow> string \<Rightarrow> string" where
  "slotText st e i glyph = concat (slotPieces st e i glyph)"

text \<open>
  One rendering step, at the cursor. A write failure aborts the rest of the step; the
  cursor advances when the step completes.
\<close>

definition renderSlot :: "string \<Rightarrow> printer \<Rightarrow> printer" where
  "renderSlot glyph p =
     (if err p \<noteq> None then p
      else let q = fold emit (slotPieces (config p) (extent p) (cursor p) glyph) p
           in if err q = None then q\<lparr>cursor := cursor p + 1\<rparr> else q)"

text \<open>Placeholders for the positions from the cursor up to, not including, \<open>target\<close>.\<close>

definition fill :: "int \<Rightarrow> printer \<Rightarrow> printer" where
  "fill target p =
     fold (\<lambda>_. renderSlot (utf8 (missingDigit (config p)))) [cursor p..target - 1] p"

definition Consume :: "goInt \<Rightarrow> goInt \<Rightarrow> printer \<Rightarrow> printer" where
  "Consume posit digit p = renderSlot (digitChar (sint digit)) (fill (sint posit) p)"

definition Finish :: "printer \<Rightarrow> printer" where
  "Finish p =
     (let q = fill (extent p) p
      in if trailingLineFeed (config q) then emit [CHR 0x0A] q else q)"

subsection \<open>What every engine operation preserves\<close>

lemma emit_frame [simp]:
  "extent (emit bs p) = extent p" "config (emit bs p) = config p" "cursor (emit bs p) = cursor p"
  by (simp_all add: emit_def split: prod.splits)

lemma emit_stuck [simp]: "err p \<noteq> None \<Longrightarrow> emit bs p = p"
  by (simp add: emit_def)

lemma emit_err_None: "err (emit bs p) = None \<Longrightarrow> err p = None"
  by (cases "err p = None") auto

lemma fold_emit_frame [simp]:
  "extent (fold emit bss p) = extent p" "config (fold emit bss p) = config p"
  "cursor (fold emit bss p) = cursor p"
  by (induction bss arbitrary: p) simp_all

lemma fold_emit_stuck [simp]: "err p \<noteq> None \<Longrightarrow> fold emit bss p = p"
  by (induction bss arbitrary: p) simp_all

lemma renderSlot_frame [simp]:
  "extent (renderSlot g p) = extent p" "config (renderSlot g p) = config p"
  by (simp_all add: renderSlot_def Let_def)

lemma renderSlot_stuck [simp]: "err p \<noteq> None \<Longrightarrow> renderSlot g p = p"
  by (simp add: renderSlot_def)

lemma renderSlot_advances:
  "err (renderSlot g p) = None \<Longrightarrow> err p = None \<and> cursor (renderSlot g p) = cursor p + 1"
  by (cases "err p = None") (auto simp: renderSlot_def Let_def split: if_splits)

lemma fold_renderSlot_frame [simp]:
  "extent (fold (\<lambda>_. renderSlot g) xs p) = extent p"
  "config (fold (\<lambda>_. renderSlot g) xs p) = config p"
  by (induction xs arbitrary: p) simp_all

lemma fold_renderSlot_stuck [simp]: "err p \<noteq> None \<Longrightarrow> fold (\<lambda>_. renderSlot g) xs p = p"
  by (induction xs arbitrary: p) simp_all

lemma fold_renderSlot_advances:
  "err (fold (\<lambda>_. renderSlot g) xs p) = None \<Longrightarrow>
     err p = None \<and> cursor (fold (\<lambda>_. renderSlot g) xs p) = cursor p + int (length xs)"
proof (induction xs arbitrary: p)
  case Nil
  then show ?case by simp
next
  case (Cons x xs)
  from Cons.prems have e: "err (fold (\<lambda>_. renderSlot g) xs (renderSlot g p)) = None"
    by simp
  from Cons.IH [OF e] renderSlot_advances [of g p] show ?case
    by simp
qed

lemma fill_frame [simp]:
  "extent (fill t p) = extent p" "config (fill t p) = config p"
  by (simp_all add: fill_def)

lemma fill_stuck [simp]: "err p \<noteq> None \<Longrightarrow> fill t p = p"
  by (simp add: fill_def)

lemma fill_advances:
  "err (fill t p) = None \<Longrightarrow> err p = None \<and> cursor p \<le> cursor (fill t p)"
  using fold_renderSlot_advances [of "utf8 (missingDigit (config p))" "[cursor p..t - 1]" p]
  by (simp add: fill_def)

lemma Consume_frame [simp]:
  "extent (Consume a b p) = extent p" "config (Consume a b p) = config p"
  by (simp_all add: Consume_def)

lemma Consume_stuck [simp]: "err p \<noteq> None \<Longrightarrow> Consume a b p = p"
  by (simp add: Consume_def)

lemma Consume_advances:
  assumes "err (Consume a b p) = None"
  shows "err p = None \<and> cursor p < cursor (Consume a b p)"
proof -
  let ?q = "fill (sint a) p"
  from assms have e: "err (renderSlot (digitChar (sint b)) ?q) = None"
    by (simp only: Consume_def)
  from renderSlot_advances [OF e]
  have q: "err ?q = None" and c: "cursor (renderSlot (digitChar (sint b)) ?q) = cursor ?q + 1"
    by blast+
  from fill_advances [OF q] have p: "err p = None" and le: "cursor p \<le> cursor ?q"
    by blast+
  from c le have "cursor p < cursor (renderSlot (digitChar (sint b)) ?q)"
    by linarith
  with p show ?thesis
    unfolding Consume_def by blast
qed

lemma CanConsume_Consume:
  assumes "CanConsume (Consume a b p)"
  shows "nat (extent (Consume a b p) - cursor (Consume a b p)) < nat (extent p - cursor p)"
proof -
  from assms have e: "err (Consume a b p) = None"
    and lt: "cursor (Consume a b p) < extent (Consume a b p)"
    by (simp_all add: CanConsume_def)
  from Consume_advances [OF e] have "cursor p < cursor (Consume a b p)"
    by blast
  with lt show ?thesis
    by simp
qed

section \<open>Driving the engine\<close>

text \<open>
  The loops of print.go run for their effects on the printer, on the sink behind it and
  on the sources they query. Each function below returns the printer it leaves behind
  together with the events it caused, in order: a \<open>RangeQuery\<close> for each call of
  \<^verbatim>\<open>AllInRange\<close>, and a \<open>ConsumeCall\<close> for each pair that the loop received from an
  iterator and passed to \<^verbatim>\<open>Consume\<close>, with the printer as it was at the call.
\<close>

datatype event = RangeQuery goInt goInt | ConsumeCall printer goInt goInt

text \<open>
  \<^verbatim>\<open>fromIterator\<close> (lines 177-187): the guard at entry, then the loop over the iterator.
  The loop ends when the iterator ends or when the body returns. It terminates on
  every iterator, bounded or not: a call of \<^verbatim>\<open>Consume\<close> that leaves the printer able to
  consume has moved the cursor towards the extent.
\<close>

function fromIterator_loop ::
  "(goInt \<times> goInt) iterSeq \<Rightarrow> printer \<Rightarrow> printer \<times> event list" where
  "fromIterator_loop Stop printer = (printer, [])"
| "fromIterator_loop (Yield pr rest) printer =
     (let posit = fst pr; digit = snd pr;
          printer' = Consume posit digit printer
      in if \<not> CanConsume printer' then (printer', [ConsumeCall printer posit digit])
         else case fromIterator_loop rest printer' of
           (final, calls) \<Rightarrow> (final, ConsumeCall printer posit digit # calls))"
  by pat_completeness auto
termination
  by (relation "measure (\<lambda>(it, p). nat (extent p - cursor p))")
     (auto dest: CanConsume_Consume)

definition fromIterator ::
  "(goInt \<times> goInt) iterSeq \<Rightarrow> printer \<Rightarrow> printer \<times> event list" where
  "fromIterator it printer =
     (if \<not> CanConsume printer then (printer, []) else fromIterator_loop it printer)"

text \<open>
  \<^verbatim>\<open>fromSequenceWithPositions\<close> (lines 171-175): for each range, in order, the source's
  \<^verbatim>\<open>AllInRange\<close> is called and its iterator handed to \<^verbatim>\<open>fromIterator\<close>.
\<close>

fun fromSequenceWithPositions ::
  "Printable \<Rightarrow> PositionRange list \<Rightarrow> printer \<Rightarrow> printer \<times> event list" where
  "fromSequenceWithPositions s [] printer = (printer, [])"
| "fromSequenceWithPositions s (pr # prs) printer =
     (case fromIterator (AllInRange s (Start pr) (End pr)) printer of
        (printer', events) \<Rightarrow>
          (case fromSequenceWithPositions s prs printer' of
             (final, events') \<Rightarrow> (final, RangeQuery (Start pr) (End pr) # events @ events')))"

text \<open>
  \<^verbatim>\<open>Fprint\<close> (lines 103-116) and \<^verbatim>\<open>Fwrite\<close> (lines 123-136). \<open>Fprint_printer\<close> and
  \<open>Fwrite_printer\<close> are the printers of lines 112 and 132; the \<open>_run\<close> functions are the
  bodies up to \<^verbatim>\<open>Finish\<close>; the entry points return the sink as the call left it, the
  bytes written and the error.
\<close>

definition Fprint_printer :: "writer \<Rightarrow> Positions \<Rightarrow> Option list \<Rightarrow> printer" where
  "Fprint_printer w p options =
     newPrinter w (Positions_End p) (mutateSettings options Fprint_settings)"

definition Fprint_run ::
  "writer \<Rightarrow> Printable \<Rightarrow> Positions \<Rightarrow> Option list \<Rightarrow> printer \<times> event list" where
  "Fprint_run w s p options =
     (case fromSequenceWithPositions s (Positions_All p) (Fprint_printer w p options) of
        (printer, events) \<Rightarrow> (Finish printer, events))"

definition Fprint ::
  "writer \<Rightarrow> Printable \<Rightarrow> Positions \<Rightarrow> Option list \<Rightarrow> writer \<times> int \<times> writeError option" where
  "Fprint w s p options =
     (let printer = fst (Fprint_run w s p options)
      in (sink printer, BytesWritten printer, Err printer))"

definition Fwrite_printer :: "writer \<Rightarrow> Writable \<Rightarrow> Option list \<Rightarrow> printer" where
  "Fwrite_printer w s options =
     newPrinter w (endOf s) (mutateSettings options Fwrite_settings)"

definition Fwrite_run ::
  "writer \<Rightarrow> Writable \<Rightarrow> Option list \<Rightarrow> printer \<times> event list" where
  "Fwrite_run w s options =
     (case fromIterator (All_seq s) (Fwrite_printer w s options) of
        (printer, events) \<Rightarrow> (Finish printer, events))"

definition Fwrite ::
  "writer \<Rightarrow> Writable \<Rightarrow> Option list \<Rightarrow> writer \<times> int \<times> writeError option" where
  "Fwrite w s options =
     (let printer = fst (Fwrite_run w s options)
      in (sink printer, BytesWritten printer, Err printer))"

text \<open>
  \<^verbatim>\<open>Sprint\<close> (lines 139-143) and \<^verbatim>\<open>Swrite\<close> (lines 146-150): the builder is declared
  with its zero value, the call's results are dropped, the builder's string is returned.
\<close>

definition Sprint :: "Printable \<Rightarrow> Positions \<Rightarrow> Option list \<Rightarrow> string" where
  "Sprint s p options =
     (case Fprint zeroBuilder s p options of (builder, _) \<Rightarrow> builder_String builder)"

definition Swrite :: "Writable \<Rightarrow> Option list \<Rightarrow> string" where
  "Swrite s options =
     (case Fwrite zeroBuilder s options of (builder, _) \<Rightarrow> builder_String builder)"



section \<open>Settings and options\<close>

text \<open>
  The settings as section 4.3 words them: every field is the value of the last option
  for that field, and the seeded value when no option names the field.
\<close>

definition lastOr :: "'a \<Rightarrow> 'a list \<Rightarrow> 'a" where
  "lastOr d xs = (if xs = [] then d else last xs)"

definition settings_per_spec :: "Option list \<Rightarrow> printerSettings \<Rightarrow> printerSettings" where
  "settings_per_spec options seeded =
     \<lparr>digitsPerRow = lastOr (digitsPerRow seeded) [c. DigitsPerRow c \<leftarrow> options],
      digitsPerColumn = lastOr (digitsPerColumn seeded) [c. DigitsPerColumn c \<leftarrow> options],
      showCount = lastOr (showCount seeded) [on. ShowCount on \<leftarrow> options],
      missingDigit = lastOr (missingDigit seeded) [m. MissingDigit m \<leftarrow> options],
      trailingLineFeed = lastOr (trailingLineFeed seeded) [on. TrailingLF on \<leftarrow> options],
      leadingDecimal = lastOr (leadingDecimal seeded) [on. LeadingDecimal on \<leftarrow> options],
      bufferSize = lastOr (bufferSize seeded) [sz. bufferSizeOption sz \<leftarrow> options]\<rparr>"

lemma lastOr_Cons: "lastOr d (x # xs) = lastOr x xs"
  by (simp add: lastOr_def)

lemma settings_per_spec_Nil: "settings_per_spec [] st = st"
  by (simp add: settings_per_spec_def lastOr_def)

lemma settings_per_spec_Cons:
  "settings_per_spec (option # options) st = settings_per_spec options (mutate option st)"
  by (cases option) (simp_all add: settings_per_spec_def lastOr_Cons)

text \<open>
  C5. With no options, the settings \<^verbatim>\<open>Fprint\<close> seeds are 50 digits per row, 5 digits per
  column, count margin shown, \<open>.\<close> for a missing digit, no trailing line feed and the
  leading decimal shown; they are the settings of the printer it builds.
\<close>

theorem Fprint_defaults:
  "digitsPerRow Fprint_settings = 50 \<and> digitsPerColumn Fprint_settings = 5 \<and>
   showCount Fprint_settings \<and> missingDigit Fprint_settings = of_char (CHR ''.'') \<and>
   \<not> trailingLineFeed Fprint_settings \<and> leadingDecimal Fprint_settings \<and>
   config (Fprint_printer w p []) = Fprint_settings"
  by (simp add: Fprint_settings_def Fprint_printer_def newPrinter_def)

text \<open>
  C6. With no options, the settings \<^verbatim>\<open>Fwrite\<close> seeds are 50 digits per row, 5 digits per
  column, count margin shown, \<open>.\<close> for a missing digit, the trailing line feed on and
  no leading decimal; they are the settings of the printer it builds.
\<close>

theorem Fwrite_defaults:
  "digitsPerRow Fwrite_settings = 50 \<and> digitsPerColumn Fwrite_settings = 5 \<and>
   showCount Fwrite_settings \<and> missingDigit Fwrite_settings = of_char (CHR ''.'') \<and>
   trailingLineFeed Fwrite_settings \<and> \<not> leadingDecimal Fwrite_settings \<and>
   config (Fwrite_printer w s []) = Fwrite_settings"
  by (simp add: Fwrite_settings_def Fwrite_printer_def newPrinter_def)

text \<open>
  C7. For every list of options and every seeded record, \<^verbatim>\<open>mutateSettings\<close> yields the
  record in which each field holds the argument of the last option for that field, and
  the seeded value if the list has no option for it. So an option changes no field but
  its own, the later of two options for a field wins, and untouched fields keep their
  seeded values.
\<close>

theorem mutateSettings_per_spec:
  "mutateSettings options seeded = settings_per_spec options seeded"
  by (induction options arbitrary: seeded)
     (simp_all add: settings_per_spec_Nil settings_per_spec_Cons)

section \<open>The extent of a full-sequence write\<close>

lemma sint_succ:
  assumes "sint (x :: goInt) < 2 ^ 63 - 1"
  shows "sint (x + 1) = sint x + 1"
proof -
  have lo: "- (2 ^ 63) \<le> sint x"
    using sint_ge [of x] by simp
  have "sint (x + 1) = signed_take_bit 63 (sint x + 1)"
    by (simp add: sint_word_ariths)
  also have "\<dots> = sint x + 1"
    using lo assms by (intro signed_take_bit_int_eq_self) simp_all
  finally show ?thesis .
qed

text \<open>
  C4. The extent \<^verbatim>\<open>Fwrite\<close> builds its printer with is \<^verbatim>\<open>endOf\<close> of the source: 0 when
  the backward traversal is empty, and \<open>index + 1\<close>, in Go's \<^verbatim>\<open>int\<close>, when the backward
  traversal yields a first pair at position \<open>index\<close>. Below the largest \<^verbatim>\<open>int\<close> that
  sum is the integer \<open>index + 1\<close>.
\<close>

theorem endOf_extent:
  "(Backward s = Stop \<longrightarrow>
      endOf s = 0 \<and> extent (Fwrite_printer w s options) = 0) \<and>
   (\<forall>index digit rest. Backward s = Yield (index, digit) rest \<longrightarrow>
      endOf s = index + 1 \<and>
      extent (Fwrite_printer w s options) = sint (index + 1) \<and>
      (sint index < 2 ^ 63 - 1 \<longrightarrow> extent (Fwrite_printer w s options) = sint index + 1))"
  by (simp add: endOf_def endOf_run_def Fwrite_printer_def newPrinter_def sint_succ)

theorem endOf_extent_witness:
  "endOf \<lparr>All_seq = fromList [(0, 1), (1, 4)], Backward = fromList [(1, 4), (0, 1)]\<rparr> = 2 \<and>
   extent (Fwrite_printer zeroBuilder
     \<lparr>All_seq = fromList [(0, 1), (1, 4)], Backward = fromList [(1, 4), (0, 1)]\<rparr> []) = 2 \<and>
   endOf \<lparr>All_seq = Stop, Backward = Stop\<rparr> = 0"
  using endOf_extent [of "\<lparr>All_seq = fromList [(0, 1), (1, 4)],
      Backward = fromList [(1, 4), (0, 1)]\<rparr>" zeroBuilder "[]"]
    endOf_extent [of "\<lparr>All_seq = Stop, Backward = Stop\<rparr>" zeroBuilder "[]"]
  by simp

text \<open>
  C10. When the backward traversal yields at least one pair, \<^verbatim>\<open>endOf\<close> returns the first
  pair's position plus one after receiving that one pair: the result is the same
  whatever follows the first pair, a traversal without end included.
\<close>

theorem endOf_first_pair_only:
  "Backward s = Yield (index, digit) rest \<Longrightarrow>
     endOf_run s = (index + 1, 1) \<and>
     (\<forall>digit' rest'. endOf_run (s\<lparr>Backward := Yield (index, digit') rest'\<rparr>) = endOf_run s)"
  by (simp add: endOf_run_def)

theorem endOf_first_pair_only_witness:
  "endOf_run \<lparr>All_seq = Stop, Backward = Yield (41, 7) (forever (40, 0))\<rparr> = (42, 1)"
  using endOf_first_pair_only
    [of "\<lparr>All_seq = Stop, Backward = Yield (41, 7) (forever (40, 0))\<rparr>" 41 7 "forever (40, 0)"]
  by simp

section \<open>What the driving loops do, event by event\<close>

text \<open>
  Readings of an event list. \<open>wellDriven p es\<close>: started on printer \<open>p\<close>, every
  \<open>ConsumeCall\<close> of \<open>es\<close> was made on the printer the calls before it left behind, and
  \<^verbatim>\<open>CanConsume\<close> held on that printer. \<open>whileConsuming es\<close>: \<^verbatim>\<open>CanConsume\<close> held at
  every \<open>ConsumeCall\<close>. \<open>replay p es\<close>: the printer the calls of \<open>es\<close> leave behind.
  \<open>pulled es\<close>: the pairs received from iterators. \<open>queried es\<close>: the ranges
  \<^verbatim>\<open>AllInRange\<close> was called with. \<open>firstOf n it\<close>: the first \<open>n\<close> elements of an iterator.
  \<open>after n it\<close>: the iterator past them.
\<close>

fun wellDriven :: "printer \<Rightarrow> event list \<Rightarrow> bool" where
  "wellDriven p [] = True"
| "wellDriven p (RangeQuery start end # es) = wellDriven p es"
| "wellDriven p (ConsumeCall q posit digit # es) =
     (q = p \<and> CanConsume p \<and> wellDriven (Consume posit digit p) es)"

fun replay :: "printer \<Rightarrow> event list \<Rightarrow> printer" where
  "replay p [] = p"
| "replay p (RangeQuery start end # es) = replay p es"
| "replay p (ConsumeCall q posit digit # es) = replay (Consume posit digit p) es"

fun pulled :: "event list \<Rightarrow> (goInt \<times> goInt) list" where
  "pulled [] = []"
| "pulled (RangeQuery start end # es) = pulled es"
| "pulled (ConsumeCall q posit digit # es) = (posit, digit) # pulled es"

fun queried :: "event list \<Rightarrow> (goInt \<times> goInt) list" where
  "queried [] = []"
| "queried (RangeQuery start end # es) = (start, end) # queried es"
| "queried (ConsumeCall q posit digit # es) = queried es"

primrec firstOf :: "nat \<Rightarrow> 'a iterSeq \<Rightarrow> 'a list" where
  "firstOf 0 it = []"
| "firstOf (Suc n) it = (case it of Stop \<Rightarrow> [] | Yield x rest \<Rightarrow> x # firstOf n rest)"

primrec after :: "nat \<Rightarrow> 'a iterSeq \<Rightarrow> 'a iterSeq" where
  "after 0 it = it"
| "after (Suc n) it = (case it of Stop \<Rightarrow> Stop | Yield x rest \<Rightarrow> after n rest)"

fun whileConsuming :: "event list \<Rightarrow> bool" where
  "whileConsuming [] = True"
| "whileConsuming (RangeQuery start end # es) = whileConsuming es"
| "whileConsuming (ConsumeCall q posit digit # es) = (CanConsume q \<and> whileConsuming es)"

text \<open>
  The events of a range-based print, read off the ranges and the source alone.
  \<open>calls_while_consuming it p\<close>: pairs are taken from the iterator \<open>it\<close> one by one, each
  passed to \<^verbatim>\<open>Consume\<close>, for as long as \<^verbatim>\<open>CanConsume\<close> holds on the printer the calls
  before have left; nothing is taken once it does not hold. \<open>events_per_range s prs p\<close>:
  for each range of \<open>prs\<close>, in order, the query of that range, then the calls that the
  iterator \<^verbatim>\<open>AllInRange\<close> returned for that range gives rise to.
\<close>

function calls_while_consuming :: "(goInt \<times> goInt) iterSeq \<Rightarrow> printer \<Rightarrow> event list" where
  "calls_while_consuming Stop p = []"
| "calls_while_consuming (Yield pr rest) p =
     (if \<not> CanConsume p then []
      else ConsumeCall p (fst pr) (snd pr) #
             calls_while_consuming rest (Consume (fst pr) (snd pr) p))"
  by pat_completeness auto
termination
proof (relation "measure (\<lambda>(it, p). if CanConsume p then Suc (nat (extent p - cursor p)) else 0)")
  show "wf (measure (\<lambda>(it, p). if CanConsume p then Suc (nat (extent p - cursor p)) else 0))"
    by simp
next
  fix pr :: "goInt \<times> goInt" and rest :: "(goInt \<times> goInt) iterSeq" and p :: printer
  assume "\<not> \<not> CanConsume p"
  then show "((rest, Consume (fst pr) (snd pr) p), Yield pr rest, p)
      \<in> measure (\<lambda>(it, p). if CanConsume p then Suc (nat (extent p - cursor p)) else 0)"
    using CanConsume_Consume [of "fst pr" "snd pr" p] by simp
qed

fun events_per_range :: "Printable \<Rightarrow> PositionRange list \<Rightarrow> printer \<Rightarrow> event list" where
  "events_per_range s [] p = []"
| "events_per_range s (pr # prs) p =
     RangeQuery (Start pr) (End pr) #
     calls_while_consuming (AllInRange s (Start pr) (End pr)) p @
     events_per_range s prs (replay p (calls_while_consuming (AllInRange s (Start pr) (End pr)) p))"


text \<open>
  Sources for concrete runs: a table of (position, digit) pairs as a \<^verbatim>\<open>Printable\<close>,
  which yields the pairs whose positions lie in the range asked for, and as a
  \<^verbatim>\<open>Writable\<close>, which yields the table forward and backward.
\<close>

definition tableSource :: "(goInt \<times> goInt) list \<Rightarrow> Printable" where
  "tableSource digits =
     \<lparr>AllInRange = (\<lambda>start end.
        fromList (filter (\<lambda>pr. sint start \<le> sint (fst pr) \<and> sint (fst pr) < sint end) digits))\<rparr>"


lemma wellDriven_append:
  "wellDriven p (es @ es') = (wellDriven p es \<and> wellDriven (replay p es) es')"
  by (induction p es rule: wellDriven.induct) auto

lemma replay_append: "replay p (es @ es') = replay (replay p es) es'"
  by (induction p es rule: replay.induct) auto

lemma pulled_append: "pulled (es @ es') = pulled es @ pulled es'"
  by (induction es rule: pulled.induct) auto

lemma queried_append: "queried (es @ es') = queried es @ queried es'"
  by (induction es rule: queried.induct) auto

lemma fromIterator_loop_Yield:
  "fromIterator_loop (Yield pr rest) p =
     (if \<not> CanConsume (Consume (fst pr) (snd pr) p)
      then (Consume (fst pr) (snd pr) p, [ConsumeCall p (fst pr) (snd pr)])
      else (fst (fromIterator_loop rest (Consume (fst pr) (snd pr) p)),
            ConsumeCall p (fst pr) (snd pr) #
              snd (fromIterator_loop rest (Consume (fst pr) (snd pr) p))))"
  by (simp add: Let_def split: prod.splits)

lemma fromIterator_loop_trace:
  "CanConsume p \<Longrightarrow>
     wellDriven p (snd (fromIterator_loop it p)) \<and>
     fst (fromIterator_loop it p) = replay p (snd (fromIterator_loop it p)) \<and>
     queried (snd (fromIterator_loop it p)) = [] \<and>
     pulled (snd (fromIterator_loop it p)) = firstOf (length (snd (fromIterator_loop it p))) it \<and>
     (CanConsume (fst (fromIterator_loop it p)) \<longrightarrow>
        after (length (snd (fromIterator_loop it p))) it = Stop)"
proof (induction it p rule: fromIterator_loop.induct)
  case (1 printer)
  then show ?case by simp
next
  case (2 pr rest printer)
  show ?case
  proof (cases "CanConsume (Consume (fst pr) (snd pr) printer)")
    case False
    with "2.prems" show ?thesis
      by (simp only: fromIterator_loop_Yield) simp
  next
    case True
    from "2.IH" [OF refl refl refl _ True] True "2.prems" show ?thesis
      by (simp only: fromIterator_loop_Yield) simp
  qed
qed

lemma fromIterator_trace:
  "wellDriven p (snd (fromIterator it p)) \<and>
   fst (fromIterator it p) = replay p (snd (fromIterator it p)) \<and>
   queried (snd (fromIterator it p)) = [] \<and>
   pulled (snd (fromIterator it p)) = firstOf (length (snd (fromIterator it p))) it \<and>
   (CanConsume (fst (fromIterator it p)) \<longrightarrow> after (length (snd (fromIterator it p))) it = Stop)"
  using fromIterator_loop_trace [of p it] by (simp add: fromIterator_def)

lemma fromIterator_stopped: "\<not> CanConsume p \<Longrightarrow> fromIterator it p = (p, [])"
  by (simp add: fromIterator_def)


lemma wellDriven_whileConsuming: "wellDriven p es \<Longrightarrow> whileConsuming es"
  by (induction p es rule: wellDriven.induct) auto

lemma fromSequenceWithPositions_Cons:
  "fromSequenceWithPositions s (pr # prs) p =
     (fst (fromSequenceWithPositions s prs (fst (fromIterator (AllInRange s (Start pr) (End pr)) p))),
      RangeQuery (Start pr) (End pr) # snd (fromIterator (AllInRange s (Start pr) (End pr)) p) @
        snd (fromSequenceWithPositions s prs (fst (fromIterator (AllInRange s (Start pr) (End pr)) p))))"
  by (simp split: prod.splits)

lemma fromSequenceWithPositions_trace:
  "wellDriven p (snd (fromSequenceWithPositions s prs p)) \<and>
   fst (fromSequenceWithPositions s prs p) = replay p (snd (fromSequenceWithPositions s prs p)) \<and>
   queried (snd (fromSequenceWithPositions s prs p)) = map (\<lambda>pr. (Start pr, End pr)) prs"
proof (induction prs arbitrary: p)
  case Nil
  show ?case by simp
next
  case (Cons pr prs)
  let ?it = "AllInRange s (Start pr) (End pr)"
  from fromIterator_trace [of p ?it] Cons.IH [of "fst (fromIterator ?it p)"] show ?case
    by (simp only: fromSequenceWithPositions_Cons)
       (simp add: wellDriven_append replay_append queried_append)
qed

lemma fromSequenceWithPositions_stopped:
  "\<not> CanConsume p \<Longrightarrow>
     fromSequenceWithPositions s prs p = (p, map (\<lambda>pr. RangeQuery (Start pr) (End pr)) prs)"
  by (induction prs) (simp_all add: fromIterator_stopped)

lemma calls_while_consuming_stopped: "\<not> CanConsume p \<Longrightarrow> calls_while_consuming it p = []"
  by (cases it) simp_all

lemma fromIterator_loop_calls:
  "CanConsume p \<Longrightarrow>
     fromIterator_loop it p = (replay p (calls_while_consuming it p), calls_while_consuming it p)"
proof (induction it p rule: fromIterator_loop.induct)
  case (1 printer)
  show ?case by simp
next
  case (2 pr rest printer)
  show ?case
  proof (cases "CanConsume (Consume (fst pr) (snd pr) printer)")
    case False
    with "2.prems" show ?thesis
      by (simp only: fromIterator_loop_Yield) (simp add: calls_while_consuming_stopped)
  next
    case True
    from "2.IH" [OF refl refl refl _ True] True "2.prems" show ?thesis
      by (simp only: fromIterator_loop_Yield) simp
  qed
qed

lemma fromIterator_calls:
  "fromIterator it p = (replay p (calls_while_consuming it p), calls_while_consuming it p)"
  by (cases "CanConsume p")
     (simp_all add: fromIterator_def fromIterator_loop_calls calls_while_consuming_stopped)

lemma fromSequenceWithPositions_events:
  "fromSequenceWithPositions s prs p =
     (replay p (events_per_range s prs p), events_per_range s prs p)"
  by (induction prs arbitrary: p) (simp_all add: fromIterator_calls replay_append)

text \<open>
  C2. For every iterator and every printer, \<^verbatim>\<open>fromIterator\<close> receives no pair when
  \<^verbatim>\<open>CanConsume\<close> is false at entry. Every pair it receives is passed to \<^verbatim>\<open>Consume\<close> on the
  printer the earlier calls left behind, and \<^verbatim>\<open>CanConsume\<close> holds on that printer: a
  further pair is received only if \<^verbatim>\<open>CanConsume\<close> held after the call before. The pairs
  received are a prefix of the iterator.
\<close>

theorem fromIterator_polls_CanConsume:
  "(\<not> CanConsume p \<longrightarrow> fromIterator it p = (p, [])) \<and>
   wellDriven p (snd (fromIterator it p)) \<and>
   whileConsuming (snd (fromIterator it p)) \<and>
   fst (fromIterator it p) = replay p (snd (fromIterator it p)) \<and>
   pulled (snd (fromIterator it p)) = firstOf (length (snd (fromIterator it p))) it"
  using fromIterator_trace [of p it] wellDriven_whileConsuming [of p "snd (fromIterator it p)"]
  by (simp add: fromIterator_stopped)

theorem fromIterator_polls_CanConsume_witness:
  "\<not> CanConsume (newPrinter zeroBuilder 0 Fwrite_settings) \<and>
   fromIterator (forever (0, 1)) (newPrinter zeroBuilder 0 Fwrite_settings) =
     (newPrinter zeroBuilder 0 Fwrite_settings, []) \<and>
   whileConsuming (snd (fromIterator (fromList [(0, 1), (1, 4), (2, 1)])
     (newPrinter zeroBuilder 2 Fwrite_settings)))"
  using fromIterator_polls_CanConsume
      [of "newPrinter zeroBuilder 0 Fwrite_settings" "forever (0, 1)"]
    fromIterator_polls_CanConsume
      [of "newPrinter zeroBuilder 2 Fwrite_settings" "fromList [(0, 1), (1, 4), (2, 1)]"]
  by (simp add: CanConsume_def newPrinter_def)

text \<open>
  C3, as stated, fails: with a sink that accepts no byte, the first \<^verbatim>\<open>Consume\<close> of
  \<^verbatim>\<open>Fprint\<close> records the write error, \<^verbatim>\<open>CanConsume\<close> is false from then on, and the
  second range is queried from the source all the same.
\<close>

theorem Fprint_queries_after_stop:
  "snd (Fprint_run \<lparr>accepted = [], room = Some 0, reserved = 0\<rparr>
          (tableSource [(0, 1), (1, 4), (2, 1), (3, 4)])
          [\<lparr>Start = 0, End = 2\<rparr>, \<lparr>Start = 2, End = 4\<rparr>] []) =
     [RangeQuery 0 2,
      ConsumeCall (Fprint_printer \<lparr>accepted = [], room = Some 0, reserved = 0\<rparr>
          [\<lparr>Start = 0, End = 2\<rparr>, \<lparr>Start = 2, End = 4\<rparr>] []) 0 1,
      RangeQuery 2 4] \<and>
   \<not> CanConsume (Consume 0 1 (Fprint_printer \<lparr>accepted = [], room = Some 0, reserved = 0\<rparr>
          [\<lparr>Start = 0, End = 2\<rparr>, \<lparr>Start = 2, End = 4\<rparr>] []))"
  by code_simp

text \<open>
  C3, amended. \<^verbatim>\<open>Fprint\<close> goes through the ranges of the position set in order and calls
  \<^verbatim>\<open>AllInRange\<close> for every one of them, whatever \<^verbatim>\<open>CanConsume\<close> says. For each range
  it takes pairs from the iterator that call returned and passes each to \<^verbatim>\<open>Consume\<close>,
  for as long as \<^verbatim>\<open>CanConsume\<close> holds: the events of the run are exactly
  \<open>events_per_range\<close>, and the printer handed to \<^verbatim>\<open>Finish\<close> is the one those calls
  leave behind. Once \<^verbatim>\<open>CanConsume\<close> is false no pair is received from any iterator
  and the printer is left as it is, while the remaining ranges are still queried.
\<close>

theorem Fprint_queries_every_range:
  "fromSequenceWithPositions s prs q =
     (replay q (events_per_range s prs q), events_per_range s prs q) \<and>
   Fprint_run w s p options =
     (Finish (replay (Fprint_printer w p options)
        (events_per_range s (Positions_All p) (Fprint_printer w p options))),
      events_per_range s (Positions_All p) (Fprint_printer w p options)) \<and>
   queried (snd (Fprint_run w s p options)) = map (\<lambda>pr. (Start pr, End pr)) (Positions_All p) \<and>
   wellDriven (Fprint_printer w p options) (snd (Fprint_run w s p options)) \<and>
   whileConsuming (snd (Fprint_run w s p options)) \<and>
   (\<forall>q prs. \<not> CanConsume q \<longrightarrow>
      fromSequenceWithPositions s prs q =
        (q, map (\<lambda>pr. RangeQuery (Start pr) (End pr)) prs))"
proof -
  let ?p = "Fprint_printer w p options"
  have events: "Fprint_run w s p options =
      (Finish (replay ?p (events_per_range s (Positions_All p) ?p)),
       events_per_range s (Positions_All p) ?p)"
    by (simp add: Fprint_run_def fromSequenceWithPositions_events)
  have run: "snd (Fprint_run w s p options) =
      snd (fromSequenceWithPositions s (Positions_All p) ?p)"
    by (simp add: Fprint_run_def split: prod.splits)
  from fromSequenceWithPositions_trace [of ?p s "Positions_All p"]
  have "wellDriven ?p (snd (fromSequenceWithPositions s (Positions_All p) ?p))"
    and "queried (snd (fromSequenceWithPositions s (Positions_All p) ?p)) =
      map (\<lambda>pr. (Start pr, End pr)) (Positions_All p)"
    by blast+
  with wellDriven_whileConsuming [of ?p "snd (fromSequenceWithPositions s (Positions_All p) ?p)"]
  have trace: "queried (snd (Fprint_run w s p options)) =
        map (\<lambda>pr. (Start pr, End pr)) (Positions_All p) \<and>
      wellDriven ?p (snd (Fprint_run w s p options)) \<and>
      whileConsuming (snd (Fprint_run w s p options))"
    by (simp add: run)
  have stopped: "\<forall>q prs. \<not> CanConsume q \<longrightarrow>
      fromSequenceWithPositions s prs q =
        (q, map (\<lambda>pr. RangeQuery (Start pr) (End pr)) prs)"
    by (simp add: fromSequenceWithPositions_stopped)
  from fromSequenceWithPositions_events [of s prs q] events trace stopped show ?thesis
    by blast
qed

theorem Fprint_queries_every_range_witness:
  "\<not> CanConsume (newPrinter zeroBuilder 0 Fprint_settings) \<and>
   fromSequenceWithPositions (tableSource [(0, 1), (1, 4), (2, 1), (3, 4)])
       [\<lparr>Start = 0, End = 2\<rparr>, \<lparr>Start = 2, End = 4\<rparr>]
       (newPrinter zeroBuilder 0 Fprint_settings) =
     (newPrinter zeroBuilder 0 Fprint_settings, [RangeQuery 0 2, RangeQuery 2 4]) \<and>
   queried (snd (Fprint_run zeroBuilder (tableSource [(0, 1), (1, 4), (2, 1), (3, 4)])
       [\<lparr>Start = 0, End = 2\<rparr>, \<lparr>Start = 2, End = 4\<rparr>] [])) = [(0, 2), (2, 4)] \<and>
   pulled (snd (Fprint_run zeroBuilder (tableSource [(0, 1), (1, 4), (2, 1), (3, 4)])
       [\<lparr>Start = 0, End = 2\<rparr>, \<lparr>Start = 2, End = 4\<rparr>] [])) =
     [(0, 1), (1, 4), (2, 1), (3, 4)]"
proof -
  note run = Fprint_queries_every_range [where w = zeroBuilder
      and s = "tableSource [(0, 1), (1, 4), (2, 1), (3, 4)]"
      and p = "[\<lparr>Start = 0, End = 2\<rparr>, \<lparr>Start = 2, End = 4\<rparr>]" and options = "[]"
      and prs = "[]" and q = "newPrinter zeroBuilder 0 Fprint_settings"]
  have stopped: "\<not> CanConsume (newPrinter zeroBuilder 0 Fprint_settings)"
    by (simp add: CanConsume_def newPrinter_def)
  from run have "\<forall>q prs. \<not> CanConsume q \<longrightarrow>
      fromSequenceWithPositions (tableSource [(0, 1), (1, 4), (2, 1), (3, 4)]) prs q =
        (q, map (\<lambda>pr. RangeQuery (Start pr) (End pr)) prs)"
    by blast
  with stopped have "fromSequenceWithPositions (tableSource [(0, 1), (1, 4), (2, 1), (3, 4)])
       [\<lparr>Start = 0, End = 2\<rparr>, \<lparr>Start = 2, End = 4\<rparr>]
       (newPrinter zeroBuilder 0 Fprint_settings) =
     (newPrinter zeroBuilder 0 Fprint_settings,
      map (\<lambda>pr. RangeQuery (Start pr) (End pr))
        [\<lparr>Start = 0, End = 2\<rparr>, \<lparr>Start = 2, End = 4\<rparr>])"
    by blast
  moreover from run have "queried (snd (Fprint_run zeroBuilder
       (tableSource [(0, 1), (1, 4), (2, 1), (3, 4)])
       [\<lparr>Start = 0, End = 2\<rparr>, \<lparr>Start = 2, End = 4\<rparr>] [])) =
     map (\<lambda>pr. (Start pr, End pr))
       (Positions_All [\<lparr>Start = 0, End = 2\<rparr>, \<lparr>Start = 2, End = 4\<rparr>])"
    by blast
  moreover have "pulled (events_per_range (tableSource [(0, 1), (1, 4), (2, 1), (3, 4)])
       (Positions_All [\<lparr>Start = 0, End = 2\<rparr>, \<lparr>Start = 2, End = 4\<rparr>])
       (Fprint_printer zeroBuilder [\<lparr>Start = 0, End = 2\<rparr>, \<lparr>Start = 2, End = 4\<rparr>] [])) =
     [(0, 1), (1, 4), (2, 1), (3, 4)]"
    by code_simp
  moreover from run have "snd (Fprint_run zeroBuilder
       (tableSource [(0, 1), (1, 4), (2, 1), (3, 4)])
       [\<lparr>Start = 0, End = 2\<rparr>, \<lparr>Start = 2, End = 4\<rparr>] []) =
     events_per_range (tableSource [(0, 1), (1, 4), (2, 1), (3, 4)])
       (Positions_All [\<lparr>Start = 0, End = 2\<rparr>, \<lparr>Start = 2, End = 4\<rparr>])
       (Fprint_printer zeroBuilder [\<lparr>Start = 0, End = 2\<rparr>, \<lparr>Start = 2, End = 4\<rparr>] [])"
    by simp
  ultimately show ?thesis
    using stopped by (simp add: Positions_All_def)
qed

section \<open>A sink that never fails\<close>

text \<open>
  \<open>intact p\<close>: the sink of printer \<open>p\<close> never fails and no error is recorded.
  \<open>wrote p bs q\<close>: printer \<open>q\<close> is intact, its sink holds the bytes of \<open>p\<close>'s sink
  followed by \<open>bs\<close>, its byte count has grown by the length of \<open>bs\<close>, and settings,
  extent and reserved capacity are those of \<open>p\<close>. \<open>slots st e glyph i j\<close>: the text of
  one rendering step for each of the positions \<open>i\<close> up to, not including, \<open>j\<close>.
\<close>

definition intact :: "printer \<Rightarrow> bool" where
  "intact p = (room (sink p) = None \<and> err p = None)"

definition wrote :: "printer \<Rightarrow> string \<Rightarrow> printer \<Rightarrow> bool" where
  "wrote p bs q =
     (intact q \<and> accepted (sink q) = accepted (sink p) @ bs \<and>
      bytesWritten q = bytesWritten p + int (length bs) \<and>
      reserved (sink q) = reserved (sink p) \<and> config q = config p \<and> extent q = extent p)"

lemma wrote_refl: "intact p \<Longrightarrow> wrote p [] p"
  by (simp add: wrote_def)

lemma wrote_trans: "wrote p a q \<Longrightarrow> wrote q b r \<Longrightarrow> wrote p (a @ b) r"
  by (simp add: wrote_def)

lemma wrote_intact: "wrote p bs q \<Longrightarrow> intact q"
  by (simp add: wrote_def)

lemma emit_wrote: "intact p \<Longrightarrow> wrote p bs (emit bs p)"
  by (simp add: intact_def wrote_def emit_def Write_to_def)

lemma fold_emit_wrote: "intact p \<Longrightarrow> wrote p (concat bss) (fold emit bss p)"
proof (induction bss arbitrary: p)
  case Nil
  then show ?case by (simp add: wrote_refl)
next
  case (Cons bs bss)
  from Cons.prems have step: "wrote p bs (emit bs p)"
    by (rule emit_wrote)
  from Cons.IH [OF wrote_intact [OF step]] have "wrote (emit bs p) (concat bss) (fold emit bss (emit bs p))" .
  with step show ?case
    by (simp add: wrote_trans)
qed

lemma renderSlot_wrote:
  assumes "intact p"
  shows "wrote p (slotText (config p) (extent p) (cursor p) g) (renderSlot g p)"
    and "cursor (renderSlot g p) = cursor p + 1"
proof -
  let ?q = "fold emit (slotPieces (config p) (extent p) (cursor p) g) p"
  from assms have w: "wrote p (slotText (config p) (extent p) (cursor p) g) ?q"
    unfolding slotText_def by (rule fold_emit_wrote)
  from assms have e: "err p = None"
    by (simp add: intact_def)
  from w have e': "err ?q = None"
    by (simp add: wrote_def intact_def)
  from e e' have r: "renderSlot g p = ?q\<lparr>cursor := cursor p + 1\<rparr>"
    by (simp add: renderSlot_def Let_def)
  from w show "wrote p (slotText (config p) (extent p) (cursor p) g) (renderSlot g p)"
    by (simp add: r wrote_def intact_def)
  show "cursor (renderSlot g p) = cursor p + 1"
    by (simp add: r)
qed

definition slots :: "printerSettings \<Rightarrow> int \<Rightarrow> (int \<Rightarrow> string) \<Rightarrow> int \<Rightarrow> int \<Rightarrow> string" where
  "slots st e glyph i j = concat (map (\<lambda>k. slotText st e k (glyph k)) [i..j - 1])"

lemma slots_empty: "j \<le> i \<Longrightarrow> slots st e glyph i j = []"
  by (simp add: slots_def)

lemma slots_first: "i < j \<Longrightarrow> slots st e glyph i j = slotText st e i (glyph i) @ slots st e glyph (i + 1) j"
  by (simp add: slots_def upto_rec1 [of i "j - 1"])



lemma fold_renderSlot_wrote:
  assumes "intact p"
  shows "wrote p (slots (config p) (extent p) (\<lambda>_. g) (cursor p) t)
           (fold (\<lambda>_. renderSlot g) [cursor p..t - 1] p) \<and>
         cursor (fold (\<lambda>_. renderSlot g) [cursor p..t - 1] p) = max (cursor p) t"
  using assms
proof (induction "nat (t - cursor p)" arbitrary: p)
  case 0
  then show ?case by (simp add: slots_empty wrote_refl)
next
  case (Suc n)
  let ?q = "renderSlot g p"
  from Suc.hyps(2) have lt: "cursor p < t"
    by linarith
  note step = renderSlot_wrote [OF Suc.prems, of g]
  from step(2) Suc.hyps(2) have n: "n = nat (t - cursor ?q)"
    by linarith
  from step(1) have frame: "config ?q = config p" "extent ?q = extent p"
    by (simp_all add: wrote_def)
  from Suc.hyps(1) [OF n wrote_intact [OF step(1)]] step(2) frame
  have rest: "wrote ?q (slots (config p) (extent p) (\<lambda>_. g) (cursor p + 1) t)
        (fold (\<lambda>_. renderSlot g) [cursor p + 1..t - 1] ?q)"
    and c: "cursor (fold (\<lambda>_. renderSlot g) [cursor p + 1..t - 1] ?q) = max (cursor p + 1) t"
    by simp_all
  from lt have unfold: "[cursor p..t - 1] = cursor p # [cursor p + 1..t - 1]"
    by (simp add: upto_rec1)
  from wrote_trans [OF step(1) rest] lt c show ?case
    by (simp add: unfold slots_first)
qed

lemma fill_wrote:
  assumes "intact p"
  shows "wrote p (slots (config p) (extent p) (\<lambda>_. utf8 (missingDigit (config p))) (cursor p) t)
           (fill t p)"
    and "cursor (fill t p) = max (cursor p) t"
  using fold_renderSlot_wrote [OF assms, of "utf8 (missingDigit (config p))" t]
  by (simp_all add: fill_def)



lemma Consume_intact: "intact p \<Longrightarrow> \<exists>bs. wrote p bs (Consume posit digit p)"
proof -
  assume i: "intact p"
  let ?q = "fill (sint posit) p"
  note f = fill_wrote(1) [OF i, of "sint posit"]
  note r = renderSlot_wrote(1) [OF wrote_intact [OF f], of "digitChar (sint digit)"]
  from wrote_trans [OF f r] show ?thesis
    unfolding Consume_def by blast
qed

lemma Finish_wrote:
  assumes "intact p"
  shows "wrote p (slots (config p) (extent p) (\<lambda>_. utf8 (missingDigit (config p))) (cursor p) (extent p) @
                  (if trailingLineFeed (config p) then [CHR 0x0A] else []))
           (Finish p)"
proof -
  let ?q = "fill (extent p) p"
  note f = fill_wrote(1) [OF assms, of "extent p"]
  from f have frame: "config ?q = config p"
    by (simp add: wrote_def)
  show ?thesis
  proof (cases "trailingLineFeed (config p)")
    case True
    from wrote_trans [OF f emit_wrote [OF wrote_intact [OF f], of "[CHR 0x0A]"]] True show ?thesis
      by (simp add: Finish_def Let_def frame)
  next
    case False
    with f show ?thesis
      by (simp add: Finish_def Let_def frame)
  qed
qed

lemma fromIterator_loop_intact:
  "intact p \<Longrightarrow> \<exists>bs. wrote p bs (fst (fromIterator_loop it p))"
proof (induction it p rule: fromIterator_loop.induct)
  case (1 printer)
  then show ?case
    using wrote_refl by auto
next
  case (2 pr rest printer)
  from Consume_intact [OF "2.prems", of "fst pr" "snd pr"]
  obtain bs where step: "wrote printer bs (Consume (fst pr) (snd pr) printer)"
    by blast
  show ?case
  proof (cases "CanConsume (Consume (fst pr) (snd pr) printer)")
    case False
    with step show ?thesis
      by (simp only: fromIterator_loop_Yield) auto
  next
    case True
    from "2.IH" [OF refl refl refl _ wrote_intact [OF step]] True
    obtain bs' where "wrote (Consume (fst pr) (snd pr) printer) bs'
        (fst (fromIterator_loop rest (Consume (fst pr) (snd pr) printer)))"
      by auto
    from wrote_trans [OF step this] True show ?thesis
      by (simp only: fromIterator_loop_Yield) auto
  qed
qed

lemma fromIterator_intact: "intact p \<Longrightarrow> \<exists>bs. wrote p bs (fst (fromIterator it p))"
  using fromIterator_loop_intact [of p it] wrote_refl [of p]
  by (auto simp: fromIterator_def)

lemma fromSequenceWithPositions_intact:
  "intact p \<Longrightarrow> \<exists>bs. wrote p bs (fst (fromSequenceWithPositions s prs p))"
proof (induction prs arbitrary: p)
  case Nil
  then show ?case
    using wrote_refl by auto
next
  case (Cons pr prs)
  from fromIterator_intact [OF Cons.prems, of "AllInRange s (Start pr) (End pr)"]
  obtain bs where step: "wrote p bs (fst (fromIterator (AllInRange s (Start pr) (End pr)) p))"
    by blast
  from Cons.IH [OF wrote_intact [OF step]]
  obtain bs' where "wrote (fst (fromIterator (AllInRange s (Start pr) (End pr)) p)) bs'
      (fst (fromSequenceWithPositions s prs (fst (fromIterator (AllInRange s (Start pr) (End pr)) p))))"
    by blast
  from wrote_trans [OF step this] show ?case
    by (simp only: fromSequenceWithPositions_Cons fst_conv) blast
qed

lemma newPrinter_wrote: "room w = None \<Longrightarrow> intact (newPrinter w e st)"
  by (simp add: intact_def newPrinter_def)

lemma Fprint_run_intact:
  assumes "room w = None"
  shows "\<exists>bs. wrote (Fprint_printer w p options) bs (fst (Fprint_run w s p options))"
proof -
  let ?p = "Fprint_printer w p options"
  have i: "intact ?p"
    using assms by (simp add: Fprint_printer_def newPrinter_wrote)
  from fromSequenceWithPositions_intact [OF i, of s "Positions_All p"]
  obtain bs where d: "wrote ?p bs (fst (fromSequenceWithPositions s (Positions_All p) ?p))"
    by blast
  from wrote_trans [OF d Finish_wrote [OF wrote_intact [OF d]]] show ?thesis
    by (auto simp: Fprint_run_def split: prod.splits)
qed

lemma Fwrite_run_intact:
  assumes "room w = None"
  shows "\<exists>bs. wrote (Fwrite_printer w s options) bs (fst (Fwrite_run w s options))"
proof -
  let ?p = "Fwrite_printer w s options"
  have i: "intact ?p"
    using assms by (simp add: Fwrite_printer_def newPrinter_wrote)
  from fromIterator_intact [OF i, of "All_seq s"]
  obtain bs where d: "wrote ?p bs (fst (fromIterator (All_seq s) ?p))"
    by blast
  from wrote_trans [OF d Finish_wrote [OF wrote_intact [OF d]]] show ?thesis
    by (auto simp: Fwrite_run_def split: prod.splits)
qed

text \<open>
  C8. \<^verbatim>\<open>Sprint\<close> and \<^verbatim>\<open>Swrite\<close> return, for every source, position set and options, the
  string that \<^verbatim>\<open>Fprint\<close> and \<^verbatim>\<open>Fwrite\<close> leave in a builder that started empty. The
  error of that run is dropped; it is always nil, and the byte count of the run is the
  length of the string returned.
\<close>

theorem Sprint_Swrite_return_the_text:
  "Sprint s p options = accepted (fst (Fprint zeroBuilder s p options)) \<and>
   fst (snd (Fprint zeroBuilder s p options)) = int (length (Sprint s p options)) \<and>
   snd (snd (Fprint zeroBuilder s p options)) = None \<and>
   Swrite t options = accepted (fst (Fwrite zeroBuilder t options)) \<and>
   fst (snd (Fwrite zeroBuilder t options)) = int (length (Swrite t options)) \<and>
   snd (snd (Fwrite zeroBuilder t options)) = None"
proof -
  have z: "room zeroBuilder = None"
    by (simp add: zeroBuilder_def)
  from Fprint_run_intact [OF z, of p options s]
  obtain bs where a: "wrote (Fprint_printer zeroBuilder p options) bs
      (fst (Fprint_run zeroBuilder s p options))"
    by blast
  from Fwrite_run_intact [OF z, of t options]
  obtain bs' where b: "wrote (Fwrite_printer zeroBuilder t options) bs'
      (fst (Fwrite_run zeroBuilder t options))"
    by blast
  from a have "Sprint s p options = accepted (fst (Fprint zeroBuilder s p options)) \<and>
   fst (snd (Fprint zeroBuilder s p options)) = int (length (Sprint s p options)) \<and>
   snd (snd (Fprint zeroBuilder s p options)) = None"
    by (simp add: Sprint_def Fprint_def Let_def builder_String_def BytesWritten_def Err_def
        wrote_def intact_def Fprint_printer_def newPrinter_def zeroBuilder_def)
  moreover from b have "Swrite t options = accepted (fst (Fwrite zeroBuilder t options)) \<and>
   fst (snd (Fwrite zeroBuilder t options)) = int (length (Swrite t options)) \<and>
   snd (snd (Fwrite zeroBuilder t options)) = None"
    by (simp add: Swrite_def Fwrite_def Let_def builder_String_def BytesWritten_def Err_def
        wrote_def intact_def Fwrite_printer_def newPrinter_def zeroBuilder_def)
  ultimately show ?thesis
    by blast
qed

section \<open>The output spans the extent\<close>



















section \<open>The buffer-size hint\<close>



definition rebuffered :: "goInt \<Rightarrow> printer \<Rightarrow> printer" where
  "rebuffered k p = p\<lparr>config := (config p)\<lparr>bufferSize := k\<rparr>\<rparr>"



lemma slotPieces_bufferSize [simp]:
  "slotPieces (st\<lparr>bufferSize := k\<rparr>) e i glyph = slotPieces st e i glyph"
  by (simp add: slotPieces_def startsRow_def completesRow_def completesColumn_def)

lemma rebuffered_frame [simp]:
  "sink (rebuffered k p) = sink p" "extent (rebuffered k p) = extent p"
  "cursor (rebuffered k p) = cursor p" "bytesWritten (rebuffered k p) = bytesWritten p"
  "err (rebuffered k p) = err p" "config (rebuffered k p) = (config p)\<lparr>bufferSize := k\<rparr>"
  by (simp_all add: rebuffered_def)




















end
